theory Spec2Isabelle
  imports Main "HOL-Library.Sublist"
begin

section \<open>The live compile-preview pipeline of \<^verbatim>\<open>src/app/page.tsx\<close>\<close>

text \<open>
  The page component \<^verbatim>\<open>Home\<close> keeps three pieces of React state (\<^verbatim>\<open>code\<close>,
  \<^verbatim>\<open>output\<close>, \<^verbatim>\<open>isCompiling\<close>), compiles the editor text with Babel in
  \<^verbatim>\<open>runCode\<close>, and shows the resulting document in a sandboxed iframe. The
  embedding below follows the component statement by statement: template literals are
  strings, \<^verbatim>\<open>try/catch/finally\<close> is a combinator on a state-and-exception monad,
  the pending \<^verbatim>\<open>setTimeout\<close> is a field of the state, and the calls that leave the
  component (Babel, the console, \<^verbatim>\<open>setOutput\<close>) are recorded in a trace.
\<close>

subsection \<open>Template literals\<close>

text \<open>A template literal spans several source lines; \<open>joinLines\<close> puts the line feeds
  back between them.\<close>

fun joinLines :: "string list \<Rightarrow> string" where
  "joinLines [] = []"
| "joinLines [l] = l"
| "joinLines (l # ls) = l @ CHR 0x0A # joinLines ls"

text \<open>\<^verbatim>\<open>defaultCode\<close>, the starter text of the editor (lines 8--19).\<close>

definition defaultCode :: string where
  \<open>defaultCode = joinLines
    [''function App() {'',
     ''  const [count, setCount] = useState(0);'',
     '''',
     ''  return ('',
     ''    <div style={{ padding: '20px' }}>'',
     ''      <h1>Hello from React Playground!</h1>'',
     ''      <button onClick={() => setCount(count + 1)}>'',
     ''        Count: {count}'',
     ''      </button>'',
     ''    </div>'',
     ''  );'',
     ''}'']\<close>

text \<open>The three runtime loaders of the success document (lines 37--39) and the opening
  tag of its bootstrap script (line 46).\<close>

definition react_script :: string where
  \<open>react_script = ''<script crossorigin src="https://unpkg.com/react@18/umd/react.development.js"></script>''\<close>

definition react_dom_script :: string where
  \<open>react_dom_script = ''<script crossorigin src="https://unpkg.com/react-dom@18/umd/react-dom.development.js"></script>''\<close>

definition babel_script :: string where
  \<open>babel_script = ''<script src="https://unpkg.com/@babel/standalone/babel.min.js"></script>''\<close>

definition bootstrap_open :: string where
  \<open>bootstrap_open = ''<script type="text/babel">''\<close>

definition runtime_bootstrap :: "string list" where
  "runtime_bootstrap = [react_script, react_dom_script, babel_script, bootstrap_open]"

text \<open>\<^verbatim>\<open>iframeContent\<close> (lines 33--54): the text before the
  \<^verbatim>\<open>${transpiledCode}\<close> hole, the text after it, and the literal itself.\<close>

definition iframeHead :: string where
  \<open>iframeHead = joinLines
    [[],
     ''        <!DOCTYPE html>'',
     ''        <html>'',
     ''          <head>'',
     ''            '' @ react_script,
     ''            '' @ react_dom_script,
     ''            '' @ babel_script,
     ''            <style>'',
     ''              body { margin: 0; padding: 20px; font-family: system-ui, -apple-system, sans-serif; }'',
     ''            </style>'',
     ''          </head>'',
     ''          <body>'',
     ''            <div id="root"></div>'',
     ''            '' @ bootstrap_open,
     ''              const { useState } = React;'',
     ''              '']\<close>

definition iframeTail :: string where
  \<open>iframeTail = joinLines
    [[],
     ''              const root = ReactDOM.createRoot(document.getElementById('root'));'',
     ''              root.render(<App />);'',
     ''            </script>'',
     ''          </body>'',
     ''        </html>'',
     ''      '']\<close>

definition iframeContent :: "string \<Rightarrow> string" where
  "iframeContent transpiledCode = iframeHead @ transpiledCode @ iframeTail"

text \<open>The error document of the \<^verbatim>\<open>catch\<close> branch (lines 60--70), split at the
  \<^verbatim>\<open>${errorMessage}\<close> hole in the same way.\<close>

definition errorHead :: string where
  \<open>errorHead = joinLines
    [[],
     ''        <!DOCTYPE html>'',
     ''        <html>'',
     ''          <body>'',
     ''            <div style="color: red; padding: 20px;">'',
     ''              <h3>Error:</h3>'',
     ''              <pre>'']\<close>

definition errorTail :: string where
  \<open>errorTail = joinLines
    [''</pre>'',
     ''            </div>'',
     ''          </body>'',
     ''        </html>'',
     ''      '']\<close>

definition errorDocument :: "string \<Rightarrow> string" where
  "errorDocument errorMessage = errorHead @ errorMessage @ errorTail"

subsection \<open>Values, the Babel boundary and the component state\<close>

text \<open>A \<^verbatim>\<open>catch\<close> clause receives any JavaScript value (\<^verbatim>\<open>error: unknown\<close>).
  The component asks one question of it, \<^verbatim>\<open>error instanceof Error\<close>, and reads one
  property, \<^verbatim>\<open>message\<close>, so a thrown value is an \<^verbatim>\<open>Error\<close> instance with its
  message or some other value.\<close>

datatype js_value =
    JUndefined
  | JNull
  | JNumber int
  | JString string
  | JObject "(string \<times> string) list"

datatype thrown =
    ErrorInstance (message: string)
  | NotAnError js_value

text \<open>\<^verbatim>\<open>transform(code, { presets: [...] }).code\<close> of \<^verbatim>\<open>@babel/standalone\<close>: the
  engine itself is not part of the repository, so it is a parameter of the model, a
  function from the source text and the options to the transformed code or to a thrown
  value. With these options Babel returns its \<^verbatim>\<open>code\<close> as a string.\<close>

record transform_options =
  presets :: "string list"

type_synonym transform_engine = "string \<Rightarrow> transform_options \<Rightarrow> thrown + string"

text \<open>What leaves the component: calls of the engine, \<^verbatim>\<open>console.error\<close>, and the
  documents handed to \<^verbatim>\<open>setOutput\<close>.\<close>

datatype event =
    TransformCall string transform_options
  | ConsoleError string thrown
  | Published string

text \<open>The three \<^verbatim>\<open>useState\<close> cells, the timeout armed by the effect (its due time and
  the \<^verbatim>\<open>code\<close> that the scheduled \<^verbatim>\<open>runCode\<close> closure captured), a clock in
  milliseconds, and the trace.\<close>

record pg_state =
  code :: string
  "output" :: string
  isCompiling :: bool
  debounceTimer :: "(nat \<times> string) option"
  clock :: nat
  trace :: "event list"

subsection \<open>Statements that may throw\<close>

text \<open>A statement maps a state to a state and either a value or a thrown value; the
  state changes made before a throw stay.\<close>

type_synonym 'a stmt = "pg_state \<Rightarrow> (thrown + 'a) \<times> pg_state"

definition andThen :: "'a stmt \<Rightarrow> ('a \<Rightarrow> 'b stmt) \<Rightarrow> 'b stmt" where
  "andThen m f s = (case m s of (Inl e, s') \<Rightarrow> (Inl e, s') | (Inr v, s') \<Rightarrow> f v s')"

text \<open>\<^verbatim>\<open>try { body } catch (error) { handler } finally { cleanup }\<close>: the cleanup runs
  on every path; a throw of the handler propagates after it, a throw of the cleanup
  replaces the pending completion.\<close>

definition try_catch_finally :: "unit stmt \<Rightarrow> (thrown \<Rightarrow> unit stmt) \<Rightarrow> unit stmt \<Rightarrow> unit stmt" where
  "try_catch_finally body handler cleanup s =
     (let (r, s1) = (case body s of (Inl e, s') \<Rightarrow> handler e s' | (Inr v, s') \<Rightarrow> (Inr v, s'))
      in case cleanup s1 of (Inl e, s2) \<Rightarrow> (Inl e, s2) | (Inr _, s2) \<Rightarrow> (r, s2))"

definition setIsCompiling :: "bool \<Rightarrow> unit stmt" where
  "setIsCompiling b s = (Inr (), s\<lparr>isCompiling := b\<rparr>)"

definition setOutput :: "string \<Rightarrow> unit stmt" where
  "setOutput doc s = (Inr (), s\<lparr>output := doc, trace := trace s @ [Published doc]\<rparr>)"

definition console_error :: "string \<Rightarrow> thrown \<Rightarrow> unit stmt" where
  "console_error label e s = (Inr (), s\<lparr>trace := trace s @ [ConsoleError label e]\<rparr>)"

definition call_transform :: "transform_engine \<Rightarrow> string \<Rightarrow> transform_options \<Rightarrow> string stmt" where
  "call_transform transform src opts s =
     (transform src opts, s\<lparr>trace := trace s @ [TransformCall src opts]\<rparr>)"

subsection \<open>\<^verbatim>\<open>runCode\<close> (lines 26--74)\<close>

definition babel_options :: transform_options where
  "babel_options = \<lparr>presets = [''react'', ''env'']\<rparr>"

text \<open>\<^verbatim>\<open>error instanceof Error ? error.message : 'An unknown error occurred'\<close>\<close>

fun errorMessage :: "thrown \<Rightarrow> string" where
  "errorMessage (ErrorInstance m) = m"
| "errorMessage (NotAnError v) = ''An unknown error occurred''"

text \<open>The closure \<^verbatim>\<open>runCode\<close> of one render reads that render's \<^verbatim>\<open>code\<close>, the
  argument \<open>c\<close> here.\<close>

definition runCode :: "transform_engine \<Rightarrow> string \<Rightarrow> unit stmt" where
  "runCode transform c =
     try_catch_finally
       (andThen (setIsCompiling True) (\<lambda>_.
        andThen (call_transform transform c babel_options) (\<lambda>transpiledCode.
        setOutput (iframeContent transpiledCode))))
       (\<lambda>error.
        andThen (console_error ''Error:'' error) (\<lambda>_.
        setOutput (errorDocument (errorMessage error))))
       (setIsCompiling False)"

subsection \<open>The component around \<^verbatim>\<open>runCode\<close>\<close>

text \<open>The \<^verbatim>\<open>useState\<close> initial values (lines 22--24).\<close>

definition initial_state :: pg_state where
  "initial_state =
     \<lparr>code = defaultCode, output = [], isCompiling = False,
      debounceTimer = None, clock = 0, trace = []\<rparr>"

text \<open>The effect of lines 76--79, \<^verbatim>\<open>useEffect(() => { const debounceTimer =
  setTimeout(runCode, 1000); return () => clearTimeout(debounceTimer); }, [code])\<close>.
  React runs it after the first render and after each render in which \<^verbatim>\<open>code\<close>
  differs from the previous render; before a re-run it calls the cleanup of the previous
  run. One run therefore replaces whatever timeout is pending by a new one, due 1000 ms
  from now, whose callback is the \<^verbatim>\<open>runCode\<close> of the current render.\<close>

definition useEffect_code :: "pg_state \<Rightarrow> pg_state" where
  "useEffect_code s = s\<lparr>debounceTimer := Some (clock s + 1000, code s)\<rparr>"

definition mount :: pg_state where
  "mount = useEffect_code initial_state"

text \<open>\<^verbatim>\<open>setCode\<close> queues a state update. React applies the queue when it renders,
  after the task that made the calls has ended; a queued value replaces the state, so the
  last call of a task decides.\<close>

type_synonym update_queue = "string list"

definition setCode :: "string \<Rightarrow> update_queue \<Rightarrow> update_queue" where
  "setCode v q = q @ [v]"

text \<open>\<^verbatim>\<open>value || ''\<close> on the editor's \<^verbatim>\<open>string | undefined\<close>: the empty string is
  falsy as well.\<close>

fun orElse :: "string option \<Rightarrow> string \<Rightarrow> string" where
  "orElse None d = d"
| "orElse (Some v) d = (if v = [] then d else v)"

text \<open>The callback of line 108, \<^verbatim>\<open>(value) => setCode(value || '')\<close>.\<close>

definition handleChange :: "string option \<Rightarrow> update_queue \<Rightarrow> update_queue" where
  "handleChange val q = setCode (orElse val []) q"

text \<open>The render that follows a task: \<^verbatim>\<open>code\<close> takes the last queued value, and
  the effect runs when that value differs from the \<^verbatim>\<open>code\<close> of the render before. A
  queue that ends on the text already rendered changes no dependency, so the effect is
  not run again.\<close>

definition render :: "update_queue \<Rightarrow> pg_state \<Rightarrow> pg_state" where
  "render q s =
     (let v = last (code s # q)
      in if v = code s then s else useEffect_code (s\<lparr>code := v\<rparr>))"

text \<open>A task in which the editor calls the callback with \<open>vals\<close> in turn, and the render
  after it. \<open>onChange val\<close> is the usual case, one change in a task of its own.\<close>

definition editor_task :: "string option list \<Rightarrow> pg_state \<Rightarrow> pg_state" where
  "editor_task vals s = render (fold handleChange vals []) s"

definition onChange :: "string option \<Rightarrow> pg_state \<Rightarrow> pg_state" where
  "onChange val s = editor_task [val] s"

text \<open>The pending timeout fires once, when its due time is reached, and runs the
  \<^verbatim>\<open>runCode\<close> it was given. \<open>advance transform t\<close> lets time pass until \<open>t\<close>.
  The renders that follow \<^verbatim>\<open>setOutput\<close> and \<^verbatim>\<open>setIsCompiling\<close> leave
  \<^verbatim>\<open>code\<close> as it is, so they do not run the effect.\<close>

definition fire :: "transform_engine \<Rightarrow> pg_state \<Rightarrow> pg_state" where
  "fire transform s =
     (case debounceTimer s of
        None \<Rightarrow> s
      | Some (due, c) \<Rightarrow>
          snd (runCode transform c (s\<lparr>debounceTimer := None, clock := max (clock s) due\<rparr>)))"

definition timer_due :: "nat \<Rightarrow> pg_state \<Rightarrow> bool" where
  "timer_due t s = (case debounceTimer s of None \<Rightarrow> False | Some (due, c) \<Rightarrow> due \<le> t)"

definition advance :: "transform_engine \<Rightarrow> nat \<Rightarrow> pg_state \<Rightarrow> pg_state" where
  "advance transform t s =
     (let s' = (if timer_due t s then fire transform s else s)
      in s'\<lparr>clock := max (clock s') t\<rparr>)"

text \<open>The Compile button (lines 94--100): \<^verbatim>\<open>onClick={runCode}\<close>,
  \<^verbatim>\<open>disabled={isCompiling}\<close>. A disabled button dispatches no click; an enabled one
  runs the \<^verbatim>\<open>runCode\<close> of the current render.\<close>

definition click :: "transform_engine \<Rightarrow> pg_state \<Rightarrow> pg_state" where
  "click transform s = (if isCompiling s then s else snd (runCode transform (code s) s))"

text \<open>The preview iframe (lines 160--165).\<close>

record iframe_props =
  srcDoc :: string
  title :: string
  sandbox :: string
  className :: string

definition preview_iframe :: "pg_state \<Rightarrow> iframe_props" where
  "preview_iframe s =
     \<lparr>srcDoc = output s, title = ''output'', sandbox = ''allow-scripts'',
      className = ''w-full h-[500px]''\<rparr>"

subsection \<open>Events and schedules\<close>

text \<open>What can happen to the mounted component: the editor reports a change, the user
  presses the button, time passes until a given instant.\<close>

datatype ui_event = Change "string option" | Click | Elapse nat

fun step :: "transform_engine \<Rightarrow> ui_event \<Rightarrow> pg_state \<Rightarrow> pg_state" where
  "step transform (Change val) s = onChange val s"
| "step transform Click s = click transform s"
| "step transform (Elapse t) s = advance transform t s"

text \<open>A schedule of editor tasks, each with the instant at which it happens and the
  changes it reports.\<close>

fun run_tasks :: "transform_engine \<Rightarrow> (nat \<times> string option list) list \<Rightarrow> pg_state \<Rightarrow> pg_state" where
  "run_tasks transform [] s = s"
| "run_tasks transform ((t, vals) # us) s =
     run_tasks transform us (editor_task vals (advance transform t s))"

text \<open>The text on which a task ends when the buffer held \<open>c\<close> before it.\<close>

definition batch_text :: "string option list \<Rightarrow> string \<Rightarrow> string" where
  "batch_text vals c = last (c # map (\<lambda>val. orElse val []) vals)"

text \<open>\<open>rapid t0 us\<close>: every task of \<open>us\<close> comes less than 1000 ms after the one
  before it, the first one less than 1000 ms after \<open>t0\<close>. \<open>changing c0 us\<close>: every
  task of \<open>us\<close> ends on a text other than the one rendered before it, which is \<open>c0\<close>
  at the start.\<close>

fun rapid :: "nat \<Rightarrow> (nat \<times> string option list) list \<Rightarrow> bool" where
  "rapid t0 [] = True"
| "rapid t0 ((t, vals) # us) = (t0 \<le> t \<and> t < t0 + 1000 \<and> rapid t us)"

fun changing :: "string \<Rightarrow> (nat \<times> string option list) list \<Rightarrow> bool" where
  "changing c0 [] = True"
| "changing c0 ((t, vals) # us) = (batch_text vals c0 \<noteq> c0 \<and> changing (batch_text vals c0) us)"

text \<open>The instant of the last task of a schedule and the text it ends on, for a schedule
  that starts at \<open>(t0, c0)\<close>.\<close>

fun final_update :: "nat \<times> string \<Rightarrow> (nat \<times> string option list) list \<Rightarrow> nat \<times> string" where
  "final_update tc [] = tc"
| "final_update (t0, c0) ((t, vals) # us) = final_update (t, batch_text vals c0) us"

text \<open>Projections of the trace: the engine calls and the published documents.\<close>

fun transform_calls :: "event list \<Rightarrow> (string \<times> transform_options) list" where
  "transform_calls [] = []"
| "transform_calls (TransformCall src opts # es) = (src, opts) # transform_calls es"
| "transform_calls (ConsoleError label e # es) = transform_calls es"
| "transform_calls (Published doc # es) = transform_calls es"

fun published :: "event list \<Rightarrow> string list" where
  "published [] = []"
| "published (TransformCall src opts # es) = published es"
| "published (ConsoleError label e # es) = published es"
| "published (Published doc # es) = doc # published es"

text \<open>The timeout that is pending, if any, was armed in the render of the current
  \<^verbatim>\<open>code\<close>.\<close>

definition timer_current :: "pg_state \<Rightarrow> bool" where
  "timer_current s = (case debounceTimer s of None \<Rightarrow> True | Some (due, c) \<Rightarrow> c = code s)"

text \<open>How often a text occurs in another.\<close>

fun occurrences :: "string \<Rightarrow> string \<Rightarrow> nat" where
  "occurrences t [] = 0"
| "occurrences t (c # cs) = (if prefix t (c # cs) then 1 else 0) + occurrences t cs"

subsection \<open>How the iframe reads a document\<close>

text \<open>The iframe parses \<^verbatim>\<open>srcDoc\<close> as HTML, so what a document shows is decided by
  the HTML tokenizer and not by the template alone. Two of its rules matter below: the
  text of a \<^verbatim>\<open>script\<close> element runs from its start tag to the first end tag
  \<^verbatim>\<open></script\<close>, and the text of a \<^verbatim>\<open>pre\<close> element runs to its end tag and is
  plain only as long as no \<^verbatim>\<open><\<close> or \<^verbatim>\<open>&\<close> occurs. The readers below follow
  these two rules and answer \<open>Unmodelled\<close> where the tokenizer applies a rule they do
  not follow (a comment opener inside a script, markup or a character reference inside
  \<^verbatim>\<open>pre\<close>, and the characters NUL and CR, which the parser rewrites).\<close>

text \<open>Tag names are matched without regard to letter case, and an end tag name ends at
  white space, \<^verbatim>\<open>/\<close> or \<^verbatim>\<open>>\<close>.\<close>

definition ascii_lower :: "char \<Rightarrow> char" where
  "ascii_lower c =
     (case map_of (zip ''ABCDEFGHIJKLMNOPQRSTUVWXYZ'' ''abcdefghijklmnopqrstuvwxyz'') c of
        None \<Rightarrow> c
      | Some l \<Rightarrow> l)"

definition tag_delimiters :: "char list" where
  "tag_delimiters = [CHR 0x09, CHR 0x0A, CHR 0x0C, CHR '' '', CHR ''/'', CHR ''>'']"

definition end_tag_here :: "string \<Rightarrow> string \<Rightarrow> bool" where
  "end_tag_here name d =
     (map ascii_lower (take (length name + 2) d) = ''</'' @ name
      \<and> (case drop (length name + 2) d of [] \<Rightarrow> False | c # _ \<Rightarrow> c \<in> set tag_delimiters))"

text \<open>What a reader found: the text of the element, no end tag, no start tag, or input
  on which it abstains.\<close>

datatype html_scan = ElementText string | NoEndTag | NoStartTag | Unmodelled

fun consText :: "char \<Rightarrow> html_scan \<Rightarrow> html_scan" where
  "consText c (ElementText b) = ElementText (c # b)"
| "consText c NoEndTag = NoEndTag"
| "consText c NoStartTag = NoStartTag"
| "consText c Unmodelled = Unmodelled"

text \<open>The characters that the parser rewrites before or while it tokenizes: NUL and the
  carriage return.\<close>

definition rewritten :: "char list" where
  "rewritten = [CHR 0x00, CHR 0x0D]"

text \<open>The text of a \<^verbatim>\<open>script\<close> element, read from just after its start tag.\<close>

fun script_data :: "string \<Rightarrow> html_scan" where
  "script_data [] = NoEndTag"
| "script_data (c # cs) =
     (if end_tag_here ''script'' (c # cs) then ElementText []
      else if prefix ''<!--'' (c # cs) \<or> c \<in> set rewritten then Unmodelled
      else consText c (script_data cs))"

text \<open>The text of a \<^verbatim>\<open>pre\<close> element, read from just after its start tag.\<close>

fun pre_data :: "string \<Rightarrow> html_scan" where
  "pre_data [] = NoEndTag"
| "pre_data (c # cs) =
     (if end_tag_here ''pre'' (c # cs) then ElementText []
      else if c \<in> set ''<&'' \<or> c \<in> set rewritten then Unmodelled
      else consText c (pre_data cs))"

text \<open>What follows the first occurrence of a text in another.\<close>

fun after_first :: "string \<Rightarrow> string \<Rightarrow> string option" where
  "after_first t [] = (if t = [] then Some [] else None)"
| "after_first t (c # cs) =
     (if prefix t (c # cs) then Some (drop (length t) (c # cs)) else after_first t cs)"

text \<open>The text of the script element opened by the first occurrence of a given start
  tag.\<close>

definition script_element_text :: "string \<Rightarrow> string \<Rightarrow> html_scan" where
  "script_element_text start_tag d =
     (case after_first start_tag d of None \<Rightarrow> NoStartTag | Some r \<Rightarrow> script_data r)"

text \<open>The text of the first \<^verbatim>\<open>pre\<close> element; the parser drops one line feed that
  comes right after the start tag.\<close>

fun drop_leading_newline :: "string \<Rightarrow> string" where
  "drop_leading_newline [] = []"
| "drop_leading_newline (c # cs) = (if c = CHR 0x0A then cs else c # cs)"

definition pre_element_text :: "string \<Rightarrow> html_scan" where
  "pre_element_text d =
     (case after_first ''<pre>'' d of
        None \<Rightarrow> NoStartTag
      | Some r \<Rightarrow> pre_data (drop_leading_newline r))"

subsection \<open>Engines for concrete runs\<close>

text \<open>Babel is outside the repository; concrete runs below use three stand-ins with
  its signature: one that accepts every text and returns it, one that rejects every text
  with an \<^verbatim>\<open>Error\<close> whose message quotes the offending source, as the code frame of
  a Babel syntax error does, and one that throws a value that is no \<^verbatim>\<open>Error\<close>.\<close>

definition accepting_engine :: transform_engine where
  "accepting_engine src opts = Inr src"

definition quoting_engine :: transform_engine where
  "quoting_engine src opts =
     Inl (ErrorInstance (''unknown: Unexpected token (1:1)'' @ [CHR 0x0A, CHR 0x0A] @ ''> 1 | '' @ src))"

definition odd_engine :: transform_engine where
  "odd_engine src opts = Inl (NotAnError (JObject [(''message'', src)]))"

section \<open>Properties\<close>

subsection \<open>What one run of \<^verbatim>\<open>runCode\<close> does\<close>

lemma runCode_accept:
  assumes "transform c babel_options = Inr tc"
  shows "runCode transform c s =
    (Inr (), s\<lparr>isCompiling := False, output := iframeContent tc,
       trace := trace s @ [TransformCall c babel_options, Published (iframeContent tc)]\<rparr>)"
  using assms
  by (simp add: runCode_def try_catch_finally_def andThen_def setIsCompiling_def
      call_transform_def setOutput_def)

lemma runCode_reject:
  assumes "transform c babel_options = Inl e"
  shows "runCode transform c s =
    (Inr (), s\<lparr>isCompiling := False, output := errorDocument (errorMessage e),
       trace := trace s @ [TransformCall c babel_options, ConsoleError ''Error:'' e,
         Published (errorDocument (errorMessage e))]\<rparr>)"
  using assms
  by (simp add: runCode_def try_catch_finally_def andThen_def setIsCompiling_def
      call_transform_def setOutput_def console_error_def)

lemma cleanup_resets_flag:
  "isCompiling (snd (try_catch_finally body handler (setIsCompiling False) s)) = False"
  by (simp add: try_catch_finally_def setIsCompiling_def split: prod.splits sum.splits)

lemma runCode_cases:
  "runCode transform c s =
    (case transform c babel_options of
       Inr tc \<Rightarrow> (Inr (), s\<lparr>isCompiling := False, output := iframeContent tc,
         trace := trace s @ [TransformCall c babel_options, Published (iframeContent tc)]\<rparr>)
     | Inl e \<Rightarrow> (Inr (), s\<lparr>isCompiling := False, output := errorDocument (errorMessage e),
         trace := trace s @ [TransformCall c babel_options, ConsoleError ''Error:'' e,
           Published (errorDocument (errorMessage e))]\<rparr>))"
  by (cases "transform c babel_options") (simp_all add: runCode_accept runCode_reject)

lemma transform_calls_append:
  "transform_calls (xs @ ys) = transform_calls xs @ transform_calls ys"
  by (induction xs rule: transform_calls.induct) simp_all

lemma published_append: "published (xs @ ys) = published xs @ published ys"
  by (induction xs rule: published.induct) simp_all

lemma runCode_calls:
  "transform_calls (trace (snd (runCode transform c s))) =
     transform_calls (trace s) @ [(c, babel_options)]"
  by (simp add: runCode_cases transform_calls_append split: sum.splits)

lemma runCode_keeps:
  "code (snd (runCode transform c s)) = code s"
  "debounceTimer (snd (runCode transform c s)) = debounceTimer s"
  "clock (snd (runCode transform c s)) = clock s"
  "isCompiling (snd (runCode transform c s)) = False"
  by (simp_all add: runCode_cases split: sum.splits)

lemma iframeContent_nonempty: "iframeContent tc \<noteq> []"
  by (simp add: iframeContent_def iframeHead_def)

lemma errorDocument_nonempty: "errorDocument m \<noteq> []"
  by (simp add: errorDocument_def errorHead_def)

lemma queued: "fold handleChange vals q = q @ map (\<lambda>val. orElse val []) vals"
  by (induction vals arbitrary: q) (simp_all add: handleChange_def setCode_def)

lemma editor_task_eq:
  "editor_task vals s =
     (if batch_text vals (code s) = code s then s
      else s\<lparr>code := batch_text vals (code s),
             debounceTimer := Some (clock s + 1000, batch_text vals (code s))\<rparr>)"
  by (simp add: editor_task_def render_def queued batch_text_def useEffect_code_def Let_def)

lemma onChange_eq:
  "onChange val s =
     (if orElse val [] = code s then s
      else s\<lparr>code := orElse val [], debounceTimer := Some (clock s + 1000, orElse val [])\<rparr>)"
  by (simp add: onChange_def editor_task_eq batch_text_def)

lemma mount_simps:
  "code mount = defaultCode" "output mount = []" "isCompiling mount = False"
  "debounceTimer mount = Some (1000, defaultCode)" "clock mount = 0" "trace mount = []"
  by (simp_all add: mount_def useEffect_code_def initial_state_def)

text \<open>
  Claim C3. After every execution of the compile procedure the status flag is idle
  again (\<open>isCompiling\<close> is false), whether the engine returned or threw, and no
  exception leaves \<open>runCode\<close>. The reset is the \<^verbatim>\<open>finally\<close> block: with
  \<open>setIsCompiling False\<close> as cleanup the flag is false after the statement whatever
  the body and the handler do, also when they throw.
\<close>

theorem C3_status_idle_after_compile:
  "isCompiling (snd (runCode transform c s)) = False
   \<and> fst (runCode transform c s) = Inr ()
   \<and> isCompiling (snd (try_catch_finally body handler (setIsCompiling False) s)) = False"
proof (intro conjI)
  show "isCompiling (snd (runCode transform c s)) = False"
    by (cases "transform c babel_options") (simp_all add: runCode_accept runCode_reject)
  show "fst (runCode transform c s) = Inr ()"
    by (cases "transform c babel_options") (simp_all add: runCode_accept runCode_reject)
  show "isCompiling (snd (try_catch_finally body handler (setIsCompiling False) s)) = False"
    by (rule cleanup_resets_flag)
qed

text \<open>
  Claim C10. The compile procedure is deterministic in the source text: with the engine a
  function of its arguments, as its boundary contract has it, two executions on the same
  text publish the same document and complete in the same way, whatever the rest of the
  state is (the previous output, the flag, the clock, the pending timer, the trace).
\<close>

theorem C10_deterministic:
  "output (snd (runCode transform c s1)) = output (snd (runCode transform c s2))
   \<and> fst (runCode transform c s1) = fst (runCode transform c s2)"
  by (simp add: runCode_cases split: sum.splits)

text \<open>
  Claim C9. The compile procedure is total over all source texts, the empty one
  included: every execution completes normally and hands exactly one document to
  \<^verbatim>\<open>setOutput\<close>, which is the new \<open>output\<close>, is not empty, and is the success
  document of the transformed code or the error document of the thrown value. The
  editor's change handler stores the reported text, and the empty text when the editor
  reports \<^verbatim>\<open>undefined\<close>.
\<close>

theorem C9_total:
  "fst (runCode transform c s) = Inr ()
   \<and> output (snd (runCode transform c s)) \<noteq> []
   \<and> published (trace (snd (runCode transform c s))) =
       published (trace s) @ [output (snd (runCode transform c s))]
   \<and> output (snd (runCode transform c s)) =
       (case transform c babel_options of
          Inr tc \<Rightarrow> iframeContent tc
        | Inl e \<Rightarrow> errorDocument (errorMessage e))
   \<and> output (snd (runCode transform [] s)) \<noteq> []
   \<and> code (onChange val s) = (case val of None \<Rightarrow> [] | Some v \<Rightarrow> v)"
  apply (intro conjI)
  apply (simp_all add: runCode_cases published_append iframeContent_nonempty errorDocument_nonempty split: sum.splits)
  apply (cases val; simp add: onChange_eq)
  done

subsection \<open>The engine call\<close>

lemma step_calls:
  assumes "timer_current s"
  shows "timer_current (step transform ev s)"
    and "transform_calls (trace (step transform ev s)) = transform_calls (trace s)
         \<or> transform_calls (trace (step transform ev s)) =
             transform_calls (trace s) @ [(code s, babel_options)]"
proof -
  show "timer_current (step transform ev s)"
    using assms
    by (cases ev)
       (auto simp: timer_current_def onChange_eq click_def
          advance_def fire_def timer_due_def runCode_keeps Let_def split: option.splits)
  show "transform_calls (trace (step transform ev s)) = transform_calls (trace s)
         \<or> transform_calls (trace (step transform ev s)) =
             transform_calls (trace s) @ [(code s, babel_options)]"
    using assms
    by (cases ev)
       (auto simp: timer_current_def onChange_eq click_def
          advance_def fire_def timer_due_def runCode_calls Let_def split: option.splits)
qed

text \<open>
  Claim C7. Every compile attempt calls the engine once, on the text of the closure and
  with exactly the options \<^verbatim>\<open>{ presets: ['react', 'env'] }\<close>, and publishes the
  success document when the call returns code and the error document when it throws.
  In the mounted component the text is the current one: from a state whose pending
  timeout was armed for the current \<open>code\<close>, every event keeps that property and
  either calls the engine not at all or once, on the current \<open>code\<close> with the fixed
  options.
\<close>

theorem C7_transform_call:
  assumes "timer_current s"
  shows "transform_calls (trace (snd (runCode transform c s))) =
           transform_calls (trace s) @ [(c, \<lparr>presets = [''react'', ''env'']\<rparr>)]
     \<and> (case transform c \<lparr>presets = [''react'', ''env'']\<rparr> of
          Inr tc \<Rightarrow> output (snd (runCode transform c s)) = iframeContent tc
        | Inl e \<Rightarrow> output (snd (runCode transform c s)) = errorDocument (errorMessage e))
     \<and> timer_current (step transform ev s)
     \<and> (transform_calls (trace (step transform ev s)) = transform_calls (trace s)
        \<or> transform_calls (trace (step transform ev s)) =
            transform_calls (trace s) @ [(code s, \<lparr>presets = [''react'', ''env'']\<rparr>)])"
proof (intro conjI)
  show "transform_calls (trace (snd (runCode transform c s))) =
           transform_calls (trace s) @ [(c, \<lparr>presets = [''react'', ''env'']\<rparr>)]"
    using runCode_calls [of transform c s] by (simp add: babel_options_def)
  show "case transform c \<lparr>presets = [''react'', ''env'']\<rparr> of
          Inr tc \<Rightarrow> output (snd (runCode transform c s)) = iframeContent tc
        | Inl e \<Rightarrow> output (snd (runCode transform c s)) = errorDocument (errorMessage e)"
    by (simp add: runCode_cases babel_options_def split: sum.splits)
  show "timer_current (step transform ev s)"
    by (rule step_calls(1) [OF assms])
  show "transform_calls (trace (step transform ev s)) = transform_calls (trace s)
        \<or> transform_calls (trace (step transform ev s)) =
            transform_calls (trace s) @ [(code s, \<lparr>presets = [''react'', ''env'']\<rparr>)]"
    using step_calls(2) [OF assms, of transform ev] by (simp add: babel_options_def)
qed

theorem C7_transform_call_witness:
  "timer_current mount
   \<and> transform_calls (trace (step accepting_engine (Elapse 1000) mount)) =
       [(defaultCode, \<lparr>presets = [''react'', ''env'']\<rparr>)]
   \<and> transform_calls (trace (snd (runCode accepting_engine ''x'' mount))) =
       [(''x'', \<lparr>presets = [''react'', ''env'']\<rparr>)]"
proof -
  have h: "timer_current mount"
    by (simp add: timer_current_def mount_simps)
  have fired: "transform_calls (trace (step accepting_engine (Elapse 1000) mount)) \<noteq> []"
    by (simp add: advance_def timer_due_def fire_def mount_simps runCode_calls Let_def)
  from C7_transform_call [OF h, of accepting_engine "''x''" "Elapse 1000"] h fired
  show ?thesis by (simp add: mount_simps)
qed

subsection \<open>The preview iframe\<close>

text \<open>
  Claim C5. Whatever document is shown, the iframe that receives it has the sandbox
  attribute \<^verbatim>\<open>allow-scripts\<close> and nothing else; in particular
  \<^verbatim>\<open>allow-same-origin\<close> does not occur in it. The attribute is the same after a
  compile that succeeded or failed.
\<close>

theorem C5_sandbox_scripts_only:
  "sandbox (preview_iframe s) = ''allow-scripts''
   \<and> \<not> sublist ''allow-same-origin'' (sandbox (preview_iframe s))
   \<and> srcDoc (preview_iframe s) = output s
   \<and> sandbox (preview_iframe (snd (runCode transform c s))) = ''allow-scripts''"
  by (simp add: preview_iframe_def sublist_code)

subsection \<open>The manual trigger\<close>

text \<open>
  Claim C4, as amended. While \<open>isCompiling\<close> holds the button is disabled and a click
  changes nothing. \<open>runCode\<close> is synchronous and ends with the flag reset, so from an
  idle state a click runs the compile procedure and leaves the state idle, and two
  clicks in succession run it twice, one after the other, each on the current text.
\<close>

theorem C4_manual_trigger:
  "(isCompiling s \<longrightarrow> click transform s = s)
   \<and> (\<not> isCompiling s \<longrightarrow>
        \<not> isCompiling (click transform s)
        \<and> transform_calls (trace (click transform s)) =
            transform_calls (trace s) @ [(code s, babel_options)]
        \<and> transform_calls (trace (click transform (click transform s))) =
            transform_calls (trace s) @ [(code s, babel_options), (code s, babel_options)])"
  by (simp add: click_def runCode_keeps runCode_calls)

theorem C4_manual_trigger_witness:
  "isCompiling (mount\<lparr>isCompiling := True\<rparr>)
   \<and> click accepting_engine (mount\<lparr>isCompiling := True\<rparr>) = mount\<lparr>isCompiling := True\<rparr>
   \<and> \<not> isCompiling mount
   \<and> transform_calls (trace (click accepting_engine (click accepting_engine mount))) =
       [(defaultCode, babel_options), (defaultCode, babel_options)]"
  using C4_manual_trigger [of "mount\<lparr>isCompiling := True\<rparr>" accepting_engine]
    C4_manual_trigger [of mount accepting_engine]
  by (simp add: mount_simps)

text \<open>The claim as first stated, one execution for two clicks in immediate succession,
  fails on the mounted component with an engine that accepts the starter text.\<close>

theorem C4_two_clicks_counterexample:
  "\<not> isCompiling mount
   \<and> length (transform_calls (trace (click accepting_engine (click accepting_engine mount)))) = 2"
  by (simp add: click_def runCode_keeps runCode_calls mount_simps)

subsection \<open>Reading elements\<close>

lemma prefix_append_short: "length t \<le> length xs \<Longrightarrow> prefix t (xs @ ys) = prefix t xs"
  by (auto simp: prefix_append)

lemma drop_append_short: "n \<le> length xs \<Longrightarrow> drop n (xs @ ys) = drop n xs @ ys"
  by simp

lemma after_first_length: "after_first t xs = Some r \<Longrightarrow> length t \<le> length xs"
proof (induction xs)
  case Nil
  then show ?case by (simp split: if_splits)
next
  case (Cons c cs)
  show ?case
  proof (cases "prefix t (c # cs)")
    case True
    then show ?thesis by (rule prefix_length_le)
  next
    case False
    with Cons show ?thesis by simp
  qed
qed

lemma after_first_append:
  "after_first t xs = Some r \<Longrightarrow> after_first t (xs @ ys) = Some (r @ ys)"
proof (induction xs)
  case Nil
  then show ?case by (cases ys) (simp_all split: if_splits)
next
  case (Cons c cs)
  show ?case
  proof (cases "prefix t (c # cs)")
    case True
    then have len: "length t \<le> length (c # cs)" by (rule prefix_length_le)
    from True have p: "prefix t (c # cs @ ys)"
      using prefix_prefix [of t "c # cs" ys] by simp
    from True Cons.prems have r: "r = drop (length t) (c # cs)" by simp
    have "drop (length t) (c # cs @ ys) = drop (length t) (c # cs) @ ys"
      using drop_append_short [OF len, of ys] by simp
    with p r show ?thesis by simp
  next
    case False
    with Cons.prems have r: "after_first t cs = Some r" by simp
    then have "length t \<le> length (c # cs)" using after_first_length by fastforce
    then have "prefix t ((c # cs) @ ys) = prefix t (c # cs)" by (rule prefix_append_short)
    with False have "\<not> prefix t (c # cs @ ys)" by simp
    with r Cons.IH show ?thesis by simp
  qed
qed

lemma take_across:
  assumes "map f (take n (u @ x # r)) = p" "length p = n" "f x \<notin> set p"
  shows "prefix p (map f u)"
proof (cases "n \<le> length u")
  case True
  then have "take n (u @ x # r) = take n u" by simp
  with assms(1) have "p = take n (map f u)" by (simp add: take_map)
  then show ?thesis by (metis take_is_prefix)
next
  case False
  then have "take n (u @ x # r) = u @ x # take (n - Suc (length u)) r"
    by (simp add: take_Cons')
  then have "map f (take n (u @ x # r)) = map f u @ f x # map f (take (n - Suc (length u)) r)"
    by (simp only: map_append list.map)
  with assms(1) have "p = map f u @ f x # map f (take (n - Suc (length u)) r)" by simp
  then have "f x \<in> set p" by simp
  with assms(3) show ?thesis by simp
qed

lemma ascii_lower_lt: "ascii_lower c = CHR ''<'' \<Longrightarrow> c = CHR ''<''"
  by (auto simp: ascii_lower_def split: if_splits)

lemma ascii_lower_newline: "ascii_lower (CHR 0x0A) = CHR 0x0A"
  by (simp add: ascii_lower_def)

lemma end_tag_here_lt: "end_tag_here name (c # cs) \<Longrightarrow> c = CHR ''<''"
  by (auto simp: end_tag_here_def ascii_lower_lt)

lemma consText_text: "foldr consText b (ElementText t) = ElementText (b @ t)"
  by (induction b) simp_all

lemma script_data_plain:
  assumes "CHR ''<'' \<notin> set b" "set b \<inter> set rewritten = {}"
  shows "script_data (b @ r) = foldr consText b (script_data r)"
  using assms
proof (induction b)
  case Nil
  then show ?case by simp
next
  case (Cons c b)
  then have "c \<noteq> CHR ''<''" by auto
  then have "\<not> end_tag_here ''script'' (c # b @ r)" "\<not> prefix ''<!--'' (c # b @ r)"
    using end_tag_here_lt by auto
  with Cons show ?case by simp
qed

lemma pre_data_plain:
  assumes "set m \<inter> set ''<&'' = {}" "set m \<inter> set rewritten = {}"
  shows "pre_data (m @ r) = foldr consText m (pre_data r)"
  using assms
proof (induction m)
  case Nil
  then show ?case by simp
next
  case (Cons c m)
  then have c: "c \<noteq> CHR ''<''" "c \<noteq> CHR ''&''" "c \<notin> set rewritten" by auto
  then have "\<not> end_tag_here ''pre'' (c # m @ r)"
    using end_tag_here_lt by auto
  with Cons c show ?case by simp
qed

lemma end_tag_here_script:
  "end_tag_here ''script'' d \<Longrightarrow> map ascii_lower (take 8 d) = ''</script''"
  by (simp add: end_tag_here_def eval_nat_numeral)

lemma comment_here: "prefix ''<!--'' d \<Longrightarrow> map id (take 4 d) = ''<!--''"
  by (auto simp: prefix_def)

lemma no_end_tag_across:
  assumes "\<not> sublist ''</script'' (map ascii_lower u)"
  shows "\<not> end_tag_here ''script'' (u @ CHR 0x0A # r)"
proof
  assume "end_tag_here ''script'' (u @ CHR 0x0A # r)"
  then have "map ascii_lower (take 8 (u @ CHR 0x0A # r)) = ''</script''"
    by (rule end_tag_here_script)
  then have "prefix ''</script'' (map ascii_lower u)"
    by (rule take_across) (simp_all add: ascii_lower_newline)
  with assms show False by (simp add: prefix_imp_sublist)
qed

lemma no_comment_across:
  assumes "\<not> sublist ''<!--'' u"
  shows "\<not> prefix ''<!--'' (u @ CHR 0x0A # r)"
proof
  assume "prefix ''<!--'' (u @ CHR 0x0A # r)"
  then have "map id (take 4 (u @ CHR 0x0A # r)) = ''<!--''"
    by (rule comment_here)
  then have "prefix ''<!--'' (map id u)"
    by (rule take_across) simp_all
  with assms show False by (simp add: prefix_imp_sublist)
qed

lemma script_data_step:
  assumes "\<not> end_tag_here ''script'' (c # cs)" "\<not> prefix ''<!--'' (c # cs)" "c \<notin> set rewritten"
  shows "script_data (c # cs) = consText c (script_data cs)"
  using assms by auto

lemma script_data_code:
  assumes "\<not> sublist ''</script'' (map ascii_lower tc)" "\<not> sublist ''<!--'' tc"
    and "set tc \<inter> set rewritten = {}"
  shows "script_data (tc @ CHR 0x0A # r) = foldr consText tc (script_data (CHR 0x0A # r))"
  using assms
proof (induction tc)
  case Nil
  show ?case by (simp only: append_Nil foldr.simps id_apply)
next
  case (Cons c u)
  have a: "\<not> end_tag_here ''script'' (c # (u @ CHR 0x0A # r))"
    using no_end_tag_across [OF Cons.prems(1), of r] by simp
  have b: "\<not> prefix ''<!--'' (c # (u @ CHR 0x0A # r))"
    using no_comment_across [OF Cons.prems(2), of r] by simp
  from Cons.prems(3) have "c \<notin> set rewritten" by auto
  with a b have step: "script_data (c # (u @ CHR 0x0A # r)) = consText c (script_data (u @ CHR 0x0A # r))"
    by (rule script_data_step)
  have IH: "script_data (u @ CHR 0x0A # r) = foldr consText u (script_data (CHR 0x0A # r))"
    using Cons.prems by (intro Cons.IH) (auto simp: sublist_Cons_right)
  show ?case by (simp only: append_Cons step IH foldr_Cons comp_apply)
qed

subsection \<open>The success document\<close>

lemma joinLines_Cons: "ls \<noteq> [] \<Longrightarrow> joinLines (l # ls) = l @ CHR 0x0A # joinLines ls"
  by (cases ls) simp_all

lemma sublist_joinLines: "l \<in> set ls \<Longrightarrow> sublist l (joinLines ls)"
proof (induction ls rule: joinLines.induct)
  case 1
  then show ?case by simp
next
  case (2 k)
  then show ?case by simp
next
  case (3 k v va)
  show ?case
  proof (cases "l = k")
    case True
    then show ?thesis by simp
  next
    case False
    with 3 have "sublist l (joinLines (v # va))" by simp
    then have "sublist l ((k @ [CHR 0x0A]) @ joinLines (v # va))"
      by (rule sublist_order.order_trans) (rule sublist_append_leftI)
    then show ?thesis by simp
  qed
qed

lemma sublist_in_line:
  assumes "sublist x l" "l \<in> set ls"
  shows "sublist x (joinLines ls)"
  using assms sublist_joinLines sublist_order.order_trans by blast

lemma suffix_joinLines: "suffix (joinLines ls) (joinLines (ks @ ls))"
proof (induction ks)
  case Nil
  then show ?case by simp
next
  case (Cons k ks)
  show ?case
  proof (cases "ks @ ls = []")
    case True
    then show ?thesis by simp
  next
    case False
    then have "joinLines ((k # ks) @ ls) = (k @ [CHR 0x0A]) @ joinLines (ks @ ls)"
      by (simp add: joinLines_Cons)
    with Cons show ?thesis by (metis suffix_order.order_trans suffix_append suffix_order.order_refl)
  qed
qed

lemma prefix_joinLines: "prefix (joinLines ks) (joinLines (ks @ ls))"
proof (induction ks rule: joinLines.induct)
  case 1
  then show ?case by simp
next
  case (2 k)
  then show ?case by (cases ls) simp_all
next
  case (3 k v va)
  then show ?case by simp
qed

lemma suffix_joinLines_drop: "drop n ls = ms \<Longrightarrow> suffix (joinLines ms) (joinLines ls)"
  using suffix_joinLines [of ms "take n ls"] by (metis append_take_drop_id)

lemma prefix_joinLines_take: "take n ls = ks \<Longrightarrow> prefix (joinLines ks) (joinLines ls)"
  using prefix_joinLines [of ks "drop n ls"] by (metis append_take_drop_id)

lemma indented: "sublist x (''            '' @ x)"
  by (rule sublist_append_leftI)

lemma iframeHead_react: "sublist react_script iframeHead"
  unfolding iframeHead_def by (rule sublist_in_line [OF indented]) simp

lemma iframeHead_react_dom: "sublist react_dom_script iframeHead"
  unfolding iframeHead_def by (rule sublist_in_line [OF indented]) simp

lemma iframeHead_babel: "sublist babel_script iframeHead"
  unfolding iframeHead_def by (rule sublist_in_line [OF indented]) simp

lemma iframeHead_root: \<open>sublist ''<div id="root"></div>'' iframeHead\<close>
  unfolding iframeHead_def by (rule sublist_in_line [OF indented]) simp

lemma iframeHead_script_body:
  \<open>suffix (joinLines [bootstrap_open, ''              const { useState } = React;'', ''              ''])
     iframeHead\<close>
proof -
  let ?ls = "[''            '' @ bootstrap_open, ''              const { useState } = React;'', ''              '']"
  have "suffix (joinLines ?ls) iframeHead"
    unfolding iframeHead_def by (rule suffix_joinLines_drop [where n = 13]) simp
  moreover have "suffix (joinLines [bootstrap_open, ''              const { useState } = React;'', ''              '']) (joinLines ?ls)"
    by (simp add: suffix_def)
  ultimately show ?thesis by (rule suffix_order.order_trans [rotated])
qed

lemma iframeTail_script_body:
  \<open>prefix (joinLines [[],
      ''              const root = ReactDOM.createRoot(document.getElementById('root'));'',
      ''              root.render(<App />);'',
      ''            </script>'']) iframeTail\<close>
  unfolding iframeTail_def by (rule prefix_joinLines_take [where n = 4]) simp

lemma one_entry_point: \<open>occurrences ''App'' (iframeHead @ iframeTail) = 1\<close>
  unfolding iframeHead_def iframeTail_def react_script_def react_dom_script_def
    babel_script_def bootstrap_open_def
  by code_simp

lemma after_babel_start_tag: \<open>after_first ''<script type="text/babel">'' iframeHead =
    Some (joinLines [[], ''              const { useState } = React;'', ''              ''])\<close>
  unfolding iframeHead_def react_script_def react_dom_script_def babel_script_def bootstrap_open_def
  by code_simp

lemma iframeTail_script_data: \<open>script_data iframeTail =
    ElementText (joinLines [[],
      ''              const root = ReactDOM.createRoot(document.getElementById('root'));'',
      ''              root.render(<App />);'',
      ''            ''])\<close>
  unfolding iframeTail_def by code_simp

lemma script_prelude_plain:
  "CHR ''<'' \<notin> set (joinLines [[], ''              const { useState } = React;'', ''              ''])"
  "set (joinLines [[], ''              const { useState } = React;'', ''              '']) \<inter> set rewritten = {}"
  by (simp_all add: rewritten_def)

lemma iframeTail_newline: "iframeTail = CHR 0x0A # tl iframeTail"
  unfolding iframeTail_def by simp

lemma script_element_of_document:
  \<open>script_element_text ''<script type="text/babel">'' (iframeHead @ tc @ iframeTail) =
     foldr consText (joinLines [[], ''              const { useState } = React;'', ''              ''])
       (script_data (tc @ iframeTail))\<close>
proof -
  let ?prelude = "joinLines [[], ''              const { useState } = React;'', ''              '']"
  have \<open>after_first ''<script type="text/babel">'' (iframeHead @ tc @ iframeTail) =
      Some (?prelude @ tc @ iframeTail)\<close>
    using after_babel_start_tag by (rule after_first_append)
  moreover have "script_data (?prelude @ tc @ iframeTail) =
      foldr consText ?prelude (script_data (tc @ iframeTail))"
    using script_prelude_plain by (rule script_data_plain)
  ultimately show ?thesis by (simp only: script_element_text_def option.case)
qed

lemma script_element_clean:
  assumes "\<not> sublist ''</script'' (map ascii_lower tc)" "\<not> sublist ''<!--'' tc"
    and "set tc \<inter> set rewritten = {}"
  shows \<open>script_element_text ''<script type="text/babel">'' (iframeHead @ tc @ iframeTail) =
     ElementText (joinLines [[], ''              const { useState } = React;'', ''              ''] @ tc @
       joinLines [[],
         ''              const root = ReactDOM.createRoot(document.getElementById('root'));'',
         ''              root.render(<App />);'',
         ''            ''])\<close>
proof -
  have "script_data (tc @ CHR 0x0A # tl iframeTail) =
      foldr consText tc (script_data (CHR 0x0A # tl iframeTail))"
    using assms by (rule script_data_code)
  then have "script_data (tc @ iframeTail) = foldr consText tc (script_data iframeTail)"
    using iframeTail_newline by simp
  then show ?thesis
    by (simp only: script_element_of_document iframeTail_script_data consText_text)
qed

lemma iframeHead_loaders:
  \<open>sublist ''<script crossorigin src="https://unpkg.com/react@18/umd/react.development.js"></script>'' iframeHead\<close>
  \<open>sublist ''<script crossorigin src="https://unpkg.com/react-dom@18/umd/react-dom.development.js"></script>'' iframeHead\<close>
  \<open>sublist ''<script src="https://unpkg.com/@babel/standalone/babel.min.js"></script>'' iframeHead\<close>
  using iframeHead_react iframeHead_react_dom iframeHead_babel
  by (simp_all only: react_script_def react_dom_script_def babel_script_def)

text \<open>
  Claim C6, as amended. When the engine accepts the source text, the published document
  is the fixed template around the transformed code, which is interpolated as it is. The
  part before the code loads React 18, ReactDOM 18 and Babel standalone from unpkg, holds
  the container \<^verbatim>\<open><div id="root"></div>\<close>, and ends by opening a script of type
  \<^verbatim>\<open>text/babel\<close>, which Babel standalone transforms inside the iframe; the part after
  the code creates a root on the element with id \<^verbatim>\<open>root\<close>, renders
  \<^verbatim>\<open><App />\<close> into it and closes the script. \<^verbatim>\<open>App\<close> is named once in the
  template and is given no props. When the transformed code holds no end tag
  \<^verbatim>\<open></script\<close> in any letter case, no \<^verbatim>\<open><!--\<close> and no NUL or CR, the text
  of that script element is the \<^verbatim>\<open>useState\<close> line, the code and the two mounting
  lines.
\<close>

theorem C6_success_document:
  assumes \<open>transform c babel_options = Inr tc\<close>
  shows \<open>output (snd (runCode transform c s)) = iframeHead @ tc @ iframeTail
    \<and> sublist ''<script crossorigin src="https://unpkg.com/react@18/umd/react.development.js"></script>'' iframeHead
    \<and> sublist ''<script crossorigin src="https://unpkg.com/react-dom@18/umd/react-dom.development.js"></script>'' iframeHead
    \<and> sublist ''<script src="https://unpkg.com/@babel/standalone/babel.min.js"></script>'' iframeHead
    \<and> sublist ''<div id="root"></div>'' iframeHead
    \<and> suffix (joinLines [''<script type="text/babel">'',
          ''              const { useState } = React;'',
          ''              '']) iframeHead
    \<and> prefix (joinLines [[],
          ''              const root = ReactDOM.createRoot(document.getElementById('root'));'',
          ''              root.render(<App />);'',
          ''            </script>'']) iframeTail
    \<and> occurrences ''App'' (iframeHead @ iframeTail) = 1
    \<and> (\<not> sublist ''</script'' (map ascii_lower tc) \<and> \<not> sublist ''<!--'' tc
         \<and> CHR 0x00 \<notin> set tc \<and> CHR 0x0D \<notin> set tc \<longrightarrow>
       script_element_text ''<script type="text/babel">'' (output (snd (runCode transform c s))) =
         ElementText (joinLines [[], ''              const { useState } = React;'', ''              '']
           @ tc
           @ joinLines [[],
               ''              const root = ReactDOM.createRoot(document.getElementById('root'));'',
               ''              root.render(<App />);'',
               ''            '']))\<close>
proof (intro conjI impI)
  show out: \<open>output (snd (runCode transform c s)) = iframeHead @ tc @ iframeTail\<close>
    by (simp add: runCode_accept [of transform c tc s, OF assms] iframeContent_def)
  show \<open>suffix (joinLines [''<script type="text/babel">'',
          ''              const { useState } = React;'',
          ''              '']) iframeHead\<close>
    using iframeHead_script_body by (simp only: bootstrap_open_def)
  assume \<open>\<not> sublist ''</script'' (map ascii_lower tc) \<and> \<not> sublist ''<!--'' tc
         \<and> CHR 0x00 \<notin> set tc \<and> CHR 0x0D \<notin> set tc\<close>
  then have "\<not> sublist ''</script'' (map ascii_lower tc)" "\<not> sublist ''<!--'' tc"
    "set tc \<inter> set rewritten = {}"
    by (auto simp: rewritten_def)
  then show \<open>script_element_text ''<script type="text/babel">'' (output (snd (runCode transform c s))) =
         ElementText (joinLines [[], ''              const { useState } = React;'', ''              '']
           @ tc
           @ joinLines [[],
               ''              const root = ReactDOM.createRoot(document.getElementById('root'));'',
               ''              root.render(<App />);'',
               ''            ''])\<close>
    unfolding out by (rule script_element_clean)
qed (fact iframeHead_loaders iframeHead_root iframeTail_script_body one_entry_point)+

theorem C6_success_document_witness:
  \<open>accepting_engine ''function App() { return null; }'' babel_options = Inr ''function App() { return null; }''
   \<and> \<not> sublist ''</script'' (map ascii_lower ''function App() { return null; }'')
   \<and> \<not> sublist ''<!--'' ''function App() { return null; }''
   \<and> CHR 0x00 \<notin> set ''function App() { return null; }''
   \<and> CHR 0x0D \<notin> set ''function App() { return null; }''
   \<and> output (snd (runCode accepting_engine ''function App() { return null; }'' mount)) =
       iframeHead @ ''function App() { return null; }'' @ iframeTail
   \<and> script_element_text ''<script type="text/babel">''
         (output (snd (runCode accepting_engine ''function App() { return null; }'' mount))) =
       ElementText (joinLines [[], ''              const { useState } = React;'', ''              '']
           @ ''function App() { return null; }''
           @ joinLines [[],
               ''              const root = ReactDOM.createRoot(document.getElementById('root'));'',
               ''              root.render(<App />);'',
               ''            ''])\<close>
proof -
  have h: "accepting_engine ''function App() { return null; }'' babel_options = Inr ''function App() { return null; }''"
    by (simp add: accepting_engine_def)
  have n1: "\<not> sublist ''</script'' (map ascii_lower ''function App() { return null; }'')"
    by code_simp
  have n2: "\<not> sublist ''<!--'' ''function App() { return null; }''"
    by code_simp
  have n3: "CHR 0x00 \<notin> set ''function App() { return null; }''"
    "CHR 0x0D \<notin> set ''function App() { return null; }''"
    by simp_all
  note th = C6_success_document [of accepting_engine "''function App() { return null; }''"
      "''function App() { return null; }''" mount, OF h]
  from th have o: "output (snd (runCode accepting_engine ''function App() { return null; }'' mount)) =
       iframeHead @ ''function App() { return null; }'' @ iframeTail"
    by (rule conjunct1)
  from th n1 n2 n3 have e: \<open>script_element_text ''<script type="text/babel">''
         (output (snd (runCode accepting_engine ''function App() { return null; }'' mount))) =
       ElementText (joinLines [[], ''              const { useState } = React;'', ''              '']
           @ ''function App() { return null; }''
           @ joinLines [[],
               ''              const root = ReactDOM.createRoot(document.getElementById('root'));'',
               ''              root.render(<App />);'',
               ''            ''])\<close>
    by blast
  from h n1 n2 n3 o e show ?thesis by (intro conjI)
qed

text \<open>The claim as first stated, the transformed code inside the script body for every
  accepted text, fails when the code holds \<^verbatim>\<open></script>\<close>, here inside a string
  literal that Babel passes through: the script element ends there, in the middle of the
  code, and the mounting lines are outside it.\<close>

theorem C6_end_tag_in_code_counterexample:
  \<open>accepting_engine ''var s = "</script>";'' babel_options = Inr ''var s = "</script>";''
   \<and> script_element_text ''<script type="text/babel">''
         (output (snd (runCode accepting_engine ''var s = "</script>";'' mount))) =
       ElementText (joinLines [[], ''              const { useState } = React;'', ''              '']
           @ ''var s = "'')\<close>
proof (intro conjI)
  show h: \<open>accepting_engine ''var s = "</script>";'' babel_options = Inr ''var s = "</script>";''\<close>
    by (simp add: accepting_engine_def)
  have out: \<open>output (snd (runCode accepting_engine ''var s = "</script>";'' mount)) =
      iframeHead @ ''var s = "</script>";'' @ iframeTail\<close>
    by (simp add: runCode_cases accepting_engine_def iframeContent_def)
  have cut: \<open>script_data (''var s = "</script>";'' @ iframeTail) = ElementText ''var s = "''\<close>
    unfolding iframeTail_def by code_simp
  show \<open>script_element_text ''<script type="text/babel">''
         (output (snd (runCode accepting_engine ''var s = "</script>";'' mount))) =
       ElementText (joinLines [[], ''              const { useState } = React;'', ''              '']
           @ ''var s = "'')\<close>
    by (simp only: out script_element_of_document cut consText_text)
qed

subsection \<open>The error document\<close>

lemma errorHead_shape:
  \<open>suffix ''<pre>'' errorHead\<close>
  \<open>sublist ''<div style="color: red; padding: 20px;">'' errorHead\<close>
  unfolding errorHead_def by code_simp+

lemma errorTail_shape: \<open>prefix ''</pre>'' errorTail\<close>
  unfolding errorTail_def by code_simp

lemma errorHead_no_script: "\<not> sublist ''<s'' errorHead"
  unfolding errorHead_def by code_simp

lemma errorTail_no_script: "\<not> sublist ''<s'' errorTail"
  unfolding errorTail_def by code_simp

lemma errorHead_end: "\<not> suffix ''<'' errorHead"
  unfolding errorHead_def by code_simp

lemma errorTail_start: "errorTail = ''</pre>'' @ drop 6 errorTail"
  unfolding errorTail_def by simp

lemma prefix_pre_closing:
  assumes "prefix b ''</pre>''" "b \<noteq> []" "last b = CHR ''>''"
  shows "b = ''</pre>''"
proof -
  from assms(1,2) have "b = ''<'' \<or> b = ''</'' \<or> b = ''</p'' \<or> b = ''</pr''
      \<or> b = ''</pre'' \<or> b = ''</pre>''"
    by (auto simp: prefix_Cons)
  with assms(3) show ?thesis by auto
qed

lemma no_overlap_left:
  assumes "prefix ''<s'' t" "a \<noteq> []" "prefix a t" "suffix a errorHead"
  shows False
proof -
  from assms(1,3) consider "prefix a ''<s''" | "prefix ''<s'' a"
    using prefix_same_cases by blast
  then show False
  proof cases
    case 1
    with assms(2) have "a = ''<'' \<or> a = ''<s''" by (auto simp: prefix_Cons)
    then show False
    proof
      assume "a = ''<''"
      with assms(4) show False using errorHead_end by simp
    next
      assume "a = ''<s''"
      with assms(4) have "sublist ''<s'' errorHead" by (simp add: suffix_imp_sublist)
      then show False using errorHead_no_script by simp
    qed
  next
    case 2
    then have "sublist ''<s'' a" by (rule prefix_imp_sublist)
    moreover from assms(4) have "sublist a errorHead" by (rule suffix_imp_sublist)
    ultimately have "sublist ''<s'' errorHead" by (rule sublist_order.order_trans)
    then show False using errorHead_no_script by simp
  qed
qed

lemma no_overlap_right:
  assumes "last t = CHR ''>''" "\<not> sublist ''</p'' t" "b \<noteq> []" "suffix b t" "prefix b errorTail"
  shows False
proof -
  from assms(3,4) have lb: "last b = last t"
    by (auto simp: suffix_def)
  from assms(5) errorTail_start have "prefix b (''</pre>'' @ drop 6 errorTail)" by simp
  then have "prefix b ''</pre>'' \<or> (\<exists>us. b = ''</pre>'' @ us \<and> prefix us (drop 6 errorTail))"
    by (simp only: prefix_append)
  then have "prefix b ''</pre>'' \<or> prefix ''</pre>'' b"
    by (metis prefixI)
  moreover have "prefix b ''</pre>'' \<Longrightarrow> prefix ''</pre>'' b"
    using prefix_pre_closing [of b] assms(1,3) lb by simp
  ultimately have "prefix ''</pre>'' b" by blast
  then have "prefix ''</p'' b" by (auto simp: prefix_def)
  then have "sublist ''</p'' b" by (rule prefix_imp_sublist)
  moreover from assms(4) have "sublist b t" by (rule suffix_imp_sublist)
  ultimately have "sublist ''</p'' t" by (rule sublist_order.order_trans)
  with assms(2) show False by simp
qed

lemma sublist_script_start:
  assumes "prefix ''<s'' t" "sublist t d"
  shows "sublist ''<s'' d"
  using assms prefix_imp_sublist sublist_order.order_trans by blast

lemma sublist_errorDocument:
  assumes "prefix ''<s'' t" "last t = CHR ''>''" "\<not> sublist ''</p'' t"
  shows "sublist t (errorDocument m) \<longleftrightarrow> sublist t m"
proof
  assume "sublist t m"
  then show "sublist t (errorDocument m)"
    unfolding errorDocument_def
    by (metis sublist_appendI sublist_order.order_trans)
next
  assume "sublist t (errorDocument m)"
  then have "sublist t (errorHead @ (m @ errorTail))" by (simp add: errorDocument_def)
  then consider "sublist t errorHead" | "sublist t (m @ errorTail)"
    | a b where "t = a @ b" "suffix a errorHead" "prefix b (m @ errorTail)"
    unfolding sublist_append [of t errorHead] by blast
  then have "sublist t (m @ errorTail)"
  proof cases
    case 1
    with assms(1) show ?thesis using sublist_script_start errorHead_no_script by blast
  next
    case 2
    then show ?thesis .
  next
    case 3
    show ?thesis
    proof (cases "a = []")
      case True
      with 3 show ?thesis by (simp add: prefix_imp_sublist)
    next
      case False
      with 3 assms(1) show ?thesis using no_overlap_left [of t a] by simp
    qed
  qed
  then consider "sublist t m" | "sublist t errorTail"
    | a b where "t = a @ b" "suffix a m" "prefix b errorTail"
    unfolding sublist_append [of t m] by blast
  then show "sublist t m"
  proof cases
    case 1
    then show ?thesis .
  next
    case 2
    with assms(1) show ?thesis using sublist_script_start errorTail_no_script by blast
  next
    case 3
    show ?thesis
    proof (cases "b = []")
      case True
      with 3 show ?thesis by (simp add: suffix_imp_sublist)
    next
      case False
      moreover from 3 have "suffix b t" by (simp add: suffix_def)
      ultimately have False using no_overlap_right [OF assms(2,3), of b] 3(3) by blast
      then show ?thesis ..
    qed
  qed
qed

lemma runtime_bootstrap_tags:
  "\<forall>t \<in> set runtime_bootstrap. prefix ''<s'' t \<and> last t = CHR ''>'' \<and> \<not> sublist ''</p'' t"
  unfolding runtime_bootstrap_def react_script_def react_dom_script_def babel_script_def bootstrap_open_def
  by code_simp

lemma after_pre_start_tag: \<open>after_first ''<pre>'' errorHead = Some []\<close>
  unfolding errorHead_def by code_simp

lemma errorTail_pre_data: \<open>pre_data errorTail = ElementText []\<close>
  unfolding errorTail_def by code_simp

lemma pre_element_of_document:
  "pre_element_text (errorHead @ m @ errorTail) = pre_data (drop_leading_newline (m @ errorTail))"
proof -
  have \<open>after_first ''<pre>'' (errorHead @ m @ errorTail) = Some ([] @ m @ errorTail)\<close>
    using after_pre_start_tag by (rule after_first_append)
  then show ?thesis by (simp add: pre_element_text_def)
qed

lemma pre_element_plain:
  assumes "set m \<inter> set ''<&'' = {}" "set m \<inter> set rewritten = {}" "\<not> prefix [CHR 0x0A] m"
  shows "pre_element_text (errorHead @ m @ errorTail) = ElementText m"
proof -
  have "drop_leading_newline (m @ errorTail) = m @ errorTail"
  proof (cases m)
    case Nil
    have "drop_leading_newline errorTail = errorTail"
      by (subst (1 2) errorTail_start) simp
    with Nil show ?thesis by simp
  next
    case (Cons c m')
    with assms(3) show ?thesis by simp
  qed
  moreover have "pre_data (m @ errorTail) = foldr consText m (pre_data errorTail)"
    using assms(1,2) by (rule pre_data_plain)
  ultimately show ?thesis
    by (simp only: pre_element_of_document errorTail_pre_data consText_text append_Nil2)
qed

text \<open>
  Claim C8, as amended. The message shown for a caught value is the value's own
  \<^verbatim>\<open>message\<close> when the value is an \<^verbatim>\<open>Error\<close> instance and the text
  \<^verbatim>\<open>An unknown error occurred\<close> otherwise. The published document puts that message,
  as it is, between \<^verbatim>\<open><pre>\<close> and \<^verbatim>\<open></pre>\<close>, inside a \<^verbatim>\<open>div\<close> styled
  \<^verbatim>\<open>color: red\<close>. When the message holds no \<^verbatim>\<open><\<close>, no \<^verbatim>\<open>&\<close>, no NUL
  or CR and does not begin with a line feed, the text of the \<^verbatim>\<open>pre\<close> element is the
  message.
\<close>

theorem C8_error_message:
  assumes \<open>transform c babel_options = Inl e\<close>
  shows \<open>errorMessage (ErrorInstance m) = m
    \<and> errorMessage (NotAnError v) = ''An unknown error occurred''
    \<and> output (snd (runCode transform c s)) = errorHead @ errorMessage e @ errorTail
    \<and> suffix ''<pre>'' errorHead
    \<and> prefix ''</pre>'' errorTail
    \<and> sublist ''<div style="color: red; padding: 20px;">'' errorHead
    \<and> (set (errorMessage e) \<inter> set ''<&'' = {}
         \<and> CHR 0x00 \<notin> set (errorMessage e) \<and> CHR 0x0D \<notin> set (errorMessage e)
         \<and> \<not> prefix [CHR 0x0A] (errorMessage e) \<longrightarrow>
       pre_element_text (output (snd (runCode transform c s))) = ElementText (errorMessage e))\<close>
proof (intro conjI impI)
  show out: \<open>output (snd (runCode transform c s)) = errorHead @ errorMessage e @ errorTail\<close>
    by (simp add: runCode_reject [of transform c e s, OF assms] errorDocument_def)
  assume \<open>set (errorMessage e) \<inter> set ''<&'' = {}
         \<and> CHR 0x00 \<notin> set (errorMessage e) \<and> CHR 0x0D \<notin> set (errorMessage e)
         \<and> \<not> prefix [CHR 0x0A] (errorMessage e)\<close>
  then have "set (errorMessage e) \<inter> set ''<&'' = {}" "set (errorMessage e) \<inter> set rewritten = {}"
    "\<not> prefix [CHR 0x0A] (errorMessage e)"
    by (auto simp: rewritten_def)
  then show "pre_element_text (output (snd (runCode transform c s))) = ElementText (errorMessage e)"
    unfolding out by (rule pre_element_plain)
qed (simp_all add: errorHead_shape errorTail_shape)

theorem C8_error_message_witness:
  \<open>quoting_engine ''{'' babel_options =
      Inl (ErrorInstance (''unknown: Unexpected token (1:1)'' @ [CHR 0x0A, CHR 0x0A] @ ''> 1 | {''))
   \<and> set (''unknown: Unexpected token (1:1)'' @ [CHR 0x0A, CHR 0x0A] @ ''> 1 | {'') \<inter> set ''<&'' = {}
   \<and> pre_element_text (output (snd (runCode quoting_engine ''{'' mount))) =
      ElementText (''unknown: Unexpected token (1:1)'' @ [CHR 0x0A, CHR 0x0A] @ ''> 1 | {'')
   \<and> odd_engine ''{'' babel_options = Inl (NotAnError (JObject [(''message'', ''{'')]))
   \<and> output (snd (runCode odd_engine ''{'' mount)) =
      errorHead @ ''An unknown error occurred'' @ errorTail
   \<and> pre_element_text (output (snd (runCode odd_engine ''{'' mount))) =
      ElementText ''An unknown error occurred''\<close>
proof -
  let ?m = "''unknown: Unexpected token (1:1)'' @ [CHR 0x0A, CHR 0x0A] @ ''> 1 | {''"
  let ?f = "''An unknown error occurred''"
  have h1: "quoting_engine ''{'' babel_options = Inl (ErrorInstance ?m)"
    by (simp add: quoting_engine_def)
  have h2: "odd_engine ''{'' babel_options = Inl (NotAnError (JObject [(''message'', ''{'')]))"
    by (simp add: odd_engine_def)
  have p1: "set ?m \<inter> set ''<&'' = {}" "CHR 0x00 \<notin> set ?m" "CHR 0x0D \<notin> set ?m"
    "\<not> prefix [CHR 0x0A] ?m"
    by simp_all
  have p2: "set ?f \<inter> set ''<&'' = {}" "CHR 0x00 \<notin> set ?f" "CHR 0x0D \<notin> set ?f"
    "\<not> prefix [CHR 0x0A] ?f"
    by simp_all
  note q = C8_error_message [of quoting_engine "''{''" "ErrorInstance ?m" "[]" JNull mount,
      OF h1, unfolded errorMessage.simps]
  note f = C8_error_message [of odd_engine "''{''" "NotAnError (JObject [(''message'', ''{'')])"
      "[]" JNull mount, OF h2, unfolded errorMessage.simps]
  from q p1 have e1: "pre_element_text (output (snd (runCode quoting_engine ''{'' mount))) =
      ElementText ?m"
    by blast
  from f have o2: "output (snd (runCode odd_engine ''{'' mount)) = errorHead @ ?f @ errorTail"
    by blast
  from f p2 have e2: "pre_element_text (output (snd (runCode odd_engine ''{'' mount))) =
      ElementText ?f"
    by blast
  from h1 p1(1) e1 h2 o2 e2 show ?thesis by (intro conjI)
qed

text \<open>The claim as first stated, the message rendered as preformatted text for every
  caught value, fails when the message holds markup, here a quoted source line with
  \<^verbatim>\<open></pre>\<close>: the \<^verbatim>\<open>pre\<close> element ends there and shows the message only up to
  that point.\<close>

theorem C8_markup_in_message_counterexample:
  \<open>quoting_engine ''</pre><b>'' babel_options =
      Inl (ErrorInstance (''unknown: Unexpected token (1:1)'' @ [CHR 0x0A, CHR 0x0A] @ ''> 1 | </pre><b>''))
   \<and> pre_element_text (output (snd (runCode quoting_engine ''</pre><b>'' mount))) =
      ElementText (''unknown: Unexpected token (1:1)'' @ [CHR 0x0A, CHR 0x0A] @ ''> 1 | '')\<close>
proof (intro conjI)
  let ?m = "''unknown: Unexpected token (1:1)'' @ [CHR 0x0A, CHR 0x0A] @ ''> 1 | </pre><b>''"
  show h: "quoting_engine ''</pre><b>'' babel_options = Inl (ErrorInstance ?m)"
    by (simp add: quoting_engine_def)
  have out: "output (snd (runCode quoting_engine ''</pre><b>'' mount)) = errorHead @ ?m @ errorTail"
    by (simp add: runCode_cases quoting_engine_def errorDocument_def)
  have cut: "pre_data (drop_leading_newline (?m @ errorTail)) =
      ElementText (''unknown: Unexpected token (1:1)'' @ [CHR 0x0A, CHR 0x0A] @ ''> 1 | '')"
    unfolding errorTail_def by code_simp
  show "pre_element_text (output (snd (runCode quoting_engine ''</pre><b>'' mount))) =
      ElementText (''unknown: Unexpected token (1:1)'' @ [CHR 0x0A, CHR 0x0A] @ ''> 1 | '')"
    by (simp only: out pre_element_of_document cut)
qed

lemma errorHead_label: "sublist ''Error:'' errorHead"
proof -
  have "sublist ''Error:'' (''              <h3>'' @ ''Error:'' @ ''</h3>'')"
    by (rule sublist_appendI)
  then show ?thesis
    unfolding errorHead_def by (rule sublist_in_line) simp
qed

lemma errorDocument_parts:
  "sublist errorHead (errorDocument m)" "sublist m (errorDocument m)"
  by (simp_all add: errorDocument_def)

text \<open>
  Claim C1, as amended. When the engine throws on the source text, \<open>runCode\<close>
  completes normally and publishes one document, the error document of the caught
  value. It contains \<^verbatim>\<open>Error:\<close> and the displayed message, which for a thrown
  \<^verbatim>\<open>Error\<close> is its message text. The template around the message holds none of the
  runtime loaders and no \<^verbatim>\<open>text/babel\<close> script tag of the success document: such a
  tag occurs in the error document exactly when it occurs in the message itself.
\<close>

theorem C1_error_document:
  assumes "transform c babel_options = Inl e"
  shows "fst (runCode transform c s) = Inr ()
    \<and> output (snd (runCode transform c s)) = errorDocument (errorMessage e)
    \<and> published (trace (snd (runCode transform c s))) =
        published (trace s) @ [errorDocument (errorMessage e)]
    \<and> sublist ''Error:'' (errorDocument (errorMessage e))
    \<and> sublist (errorMessage e) (errorDocument (errorMessage e))
    \<and> (\<forall>t \<in> set runtime_bootstrap.
          sublist t (errorDocument (errorMessage e)) \<longleftrightarrow> sublist t (errorMessage e))"
proof (intro conjI)
  note run = runCode_reject [of transform c e s, OF assms]
  show "fst (runCode transform c s) = Inr ()"
    by (simp add: run)
  show "output (snd (runCode transform c s)) = errorDocument (errorMessage e)"
    by (simp add: run)
  show "published (trace (snd (runCode transform c s))) =
        published (trace s) @ [errorDocument (errorMessage e)]"
    by (simp add: run published_append)
  show "sublist ''Error:'' (errorDocument (errorMessage e))"
    using errorHead_label errorDocument_parts(1) by (rule sublist_order.order_trans)
  show "sublist (errorMessage e) (errorDocument (errorMessage e))"
    by (rule errorDocument_parts(2))
  show "\<forall>t \<in> set runtime_bootstrap.
          sublist t (errorDocument (errorMessage e)) \<longleftrightarrow> sublist t (errorMessage e)"
    using runtime_bootstrap_tags sublist_errorDocument by blast
qed

theorem C1_error_document_witness:
  "quoting_engine ''{'' babel_options = Inl (ErrorInstance (''unknown: Unexpected token (1:1)'' @ [CHR 0x0A, CHR 0x0A] @ ''> 1 | {''))
   \<and> output (snd (runCode quoting_engine ''{'' mount)) =
       errorDocument (''unknown: Unexpected token (1:1)'' @ [CHR 0x0A, CHR 0x0A] @ ''> 1 | {'')
   \<and> sublist ''Error:'' (output (snd (runCode quoting_engine ''{'' mount)))
   \<and> \<not> sublist babel_script (output (snd (runCode quoting_engine ''{'' mount)))"
proof -
  let ?m = "''unknown: Unexpected token (1:1)'' @ [CHR 0x0A, CHR 0x0A] @ ''> 1 | {''"
  have h: "quoting_engine ''{'' babel_options = Inl (ErrorInstance ?m)"
    by (simp add: quoting_engine_def)
  have b: "babel_script \<in> set runtime_bootstrap"
    by (simp add: runtime_bootstrap_def)
  have n: "\<not> sublist babel_script ?m"
    unfolding babel_script_def by code_simp
  from C1_error_document [of quoting_engine "''{''" "ErrorInstance ?m" mount] h b n
  show ?thesis by (simp del: append.simps)
qed

text \<open>The claim as first stated, no runtime loader in any error document, fails when
  the thrown message quotes a source line that holds the loader tag; the success document
  holds the same tag.\<close>

theorem C1_quoted_script_counterexample:
  "isl (quoting_engine (babel_script @ ''{'') babel_options)
   \<and> sublist babel_script (output (snd (runCode quoting_engine (babel_script @ ''{'') mount)))
   \<and> sublist babel_script (iframeContent [])"
proof (intro conjI)
  let ?p = "''unknown: Unexpected token (1:1)'' @ [CHR 0x0A, CHR 0x0A] @ ''> 1 | ''"
  show "isl (quoting_engine (babel_script @ ''{'') babel_options)"
    by (simp add: quoting_engine_def)
  have "output (snd (runCode quoting_engine (babel_script @ ''{'') mount)) =
      (errorHead @ ?p) @ babel_script @ (''{'' @ errorTail)"
    by (simp add: runCode_cases quoting_engine_def errorDocument_def)
  then show "sublist babel_script (output (snd (runCode quoting_engine (babel_script @ ''{'') mount)))"
    by (simp only: sublist_appendI)
  show "sublist babel_script (iframeContent [])"
    unfolding iframeContent_def
    using iframeHead_babel by (metis sublist_order.order_trans sublist_append_rightI)
qed

subsection \<open>Debounce\<close>

lemma advance_before_due:
  assumes "debounceTimer s = Some (due, c)" "t < due" "clock s \<le> t"
  shows "advance transform t s = s\<lparr>clock := t\<rparr>"
  using assms by (simp add: advance_def timer_due_def max_def)

lemma advance_idle_clock:
  assumes "clock s \<le> t"
  shows "clock (advance transform t s) = t" and "code (advance transform t s) = code s"
  using assms
  by (auto simp: advance_def timer_due_def fire_def runCode_keeps Let_def max_def
      split: option.splits)

lemma editor_task_changing:
  assumes "batch_text vals (code s) \<noteq> code s"
  shows "editor_task vals s =
    s\<lparr>code := batch_text vals (code s),
       debounceTimer := Some (clock s + 1000, batch_text vals (code s))\<rparr>"
  using assms by (simp add: editor_task_eq)

lemma run_tasks_burst:
  assumes "debounceTimer s = Some (clock s + 1000, code s)"
    and "rapid (clock s) us" and "changing (code s) us"
    and "final_update (clock s, code s) us = (tn, cn)"
  shows "run_tasks transform us s =
           s\<lparr>code := cn, debounceTimer := Some (tn + 1000, cn), clock := tn\<rparr>"
  using assms
proof (induction us arbitrary: s)
  case Nil
  then show ?case by simp
next
  case (Cons u us)
  obtain t vals where u: "u = (t, vals)" by (cases u)
  let ?v = "batch_text vals (code s)"
  from Cons.prems(2) u have t: "clock s \<le> t" "t < clock s + 1000" and r: "rapid t us"
    by simp_all
  from Cons.prems(3) u have v: "?v \<noteq> code s" and ch: "changing ?v us"
    by simp_all
  let ?s1 = "s\<lparr>clock := t, code := ?v, debounceTimer := Some (t + 1000, ?v)\<rparr>"
  have adv: "advance transform t s = s\<lparr>clock := t\<rparr>"
    using advance_before_due [OF Cons.prems(1) t(2) t(1)] .
  have s1: "editor_task vals (advance transform t s) = ?s1"
    using v by (simp add: adv editor_task_changing)
  have "run_tasks transform us ?s1 =
          ?s1\<lparr>code := cn, debounceTimer := Some (tn + 1000, cn), clock := tn\<rparr>"
    using Cons.prems(4) r ch u by (intro Cons.IH) simp_all
  then show ?case by (simp add: u s1)
qed

lemma fire_calls:
  assumes "debounceTimer s = Some (due, c)" "due \<le> T"
  shows "transform_calls (trace (advance transform T s)) =
           transform_calls (trace s) @ [(c, babel_options)]"
  using assms by (simp add: advance_def timer_due_def fire_def runCode_calls Let_def)

text \<open>
  Claim C2, as amended. Take an editor task at \<open>t1\<close> followed by the tasks \<open>us\<close>, each
  less than 1000 ms after the one before and each ending on a text other than the one
  rendered before it; a task makes one buffer update or several before React renders.
  Let \<open>tn\<close> be the instant of the last task and \<open>cn\<close> the text of its last update.
  Then nothing is compiled from the first task to the last, the timeout pending after
  the last task is the one its render armed, due at \<open>tn + 1000\<close> for the text \<open>cn\<close>,
  and once that instant has passed exactly one compile has run since the first task, on
  \<open>cn\<close>. (What was pending before the first task and came due by \<open>t1\<close> has fired
  before it; that is the trace of \<open>advance transform t1 s\<close>.) In general, a task that
  ends on the text already rendered, by an update to the same text or by batched updates
  that return to it, changes nothing: the effect does not run and the pending timeout
  stays as it is. Any other task sets \<open>code\<close> to its last text and replaces the pending
  timeout by one due 1000 ms later, for that text.
\<close>

theorem C2_debounce:
  assumes "clock s \<le> t1"
    and "batch_text vs1 (code s) \<noteq> code s"
    and "rapid t1 us" and "changing (batch_text vs1 (code s)) us"
    and "final_update (t1, batch_text vs1 (code s)) us = (tn, cn)"
    and "tn + 1000 \<le> T"
  shows "trace (run_tasks transform ((t1, vs1) # us) s) = trace (advance transform t1 s)
    \<and> debounceTimer (run_tasks transform ((t1, vs1) # us) s) = Some (tn + 1000, cn)
    \<and> transform_calls (trace (advance transform T (run_tasks transform ((t1, vs1) # us) s))) =
        transform_calls (trace (advance transform t1 s)) @ [(cn, babel_options)]
    \<and> editor_task vs s' =
        (if batch_text vs (code s') = code s' then s'
         else s'\<lparr>code := batch_text vs (code s'),
                 debounceTimer := Some (clock s' + 1000, batch_text vs (code s'))\<rparr>)"
proof -
  let ?s0 = "advance transform t1 s"
  let ?c1 = "batch_text vs1 (code s)"
  let ?s1 = "?s0\<lparr>code := ?c1, debounceTimer := Some (t1 + 1000, ?c1)\<rparr>"
  have s0: "clock ?s0 = t1" "code ?s0 = code s"
    using advance_idle_clock [OF assms(1)] by simp_all
  have s1: "editor_task vs1 ?s0 = ?s1"
    using assms(2) s0 by (simp add: editor_task_changing)
  have run: "run_tasks transform us ?s1 =
      ?s1\<lparr>code := cn, debounceTimer := Some (tn + 1000, cn), clock := tn\<rparr>"
    using assms(3,4,5) s0 by (intro run_tasks_burst) simp_all
  have whole: "run_tasks transform ((t1, vs1) # us) s =
      ?s1\<lparr>code := cn, debounceTimer := Some (tn + 1000, cn), clock := tn\<rparr>"
    by (simp add: s1 run)
  show ?thesis
  proof (intro conjI)
    show "trace (run_tasks transform ((t1, vs1) # us) s) = trace ?s0"
      by (simp only: whole) simp
    show tm: "debounceTimer (run_tasks transform ((t1, vs1) # us) s) = Some (tn + 1000, cn)"
      by (simp only: whole) simp
    show "transform_calls (trace (advance transform T (run_tasks transform ((t1, vs1) # us) s))) =
        transform_calls (trace ?s0) @ [(cn, babel_options)]"
      using fire_calls [OF tm assms(6), of transform] by (simp only: whole) simp
    show "editor_task vs s' =
        (if batch_text vs (code s') = code s' then s'
         else s'\<lparr>code := batch_text vs (code s'),
                 debounceTimer := Some (clock s' + 1000, batch_text vs (code s'))\<rparr>)"
      by (rule editor_task_eq)
  qed
qed

theorem C2_debounce_witness:
  "clock mount \<le> 100 \<and> batch_text [Some ''a''] (code mount) \<noteq> code mount
   \<and> rapid 100 [(600, [Some ''ab'']), (1500, [Some ''abc''])]
   \<and> changing ''a'' [(600, [Some ''ab'']), (1500, [Some ''abc''])]
   \<and> final_update (100, ''a'') [(600, [Some ''ab'']), (1500, [Some ''abc''])] = (1500, ''abc'')
   \<and> (1500::nat) + 1000 \<le> 2500
   \<and> transform_calls (trace (advance accepting_engine 2500
        (run_tasks accepting_engine
          [(100, [Some ''a'']), (600, [Some ''ab'']), (1500, [Some ''abc''])] mount))) =
      [(''abc'', babel_options)]
   \<and> batch_text [Some ''a'', Some defaultCode] (code mount) = code mount
   \<and> editor_task [Some ''a'', Some defaultCode] mount = mount"
proof -
  have c1: "batch_text [Some ''a''] c = ''a''" for c
    by (simp add: batch_text_def)
  have h1: "clock mount \<le> 100" by (simp add: mount_simps)
  have h2: "batch_text [Some ''a''] (code mount) \<noteq> code mount"
    unfolding c1 by (simp add: mount_simps defaultCode_def)
  have h3: "rapid 100 [(600, [Some ''ab'']), (1500, [Some ''abc''])]" by simp
  have h4: "changing (batch_text [Some ''a''] (code mount)) [(600, [Some ''ab'']), (1500, [Some ''abc''])]"
    unfolding c1 by (simp add: batch_text_def)
  have h5: "final_update (100, batch_text [Some ''a''] (code mount))
      [(600, [Some ''ab'']), (1500, [Some ''abc''])] = (1500, ''abc'')"
    unfolding c1 by (simp add: batch_text_def)
  have h6: "(1500::nat) + 1000 \<le> 2500" by simp
  have h7: "batch_text [Some ''a'', Some defaultCode] (code mount) = code mount"
    by (simp add: batch_text_def mount_simps defaultCode_def)
  have idle: "trace (advance accepting_engine 100 mount) = []"
    by (simp add: advance_def timer_due_def mount_simps)
  from C2_debounce [OF h1 h2 h3 h4 h5 h6, of accepting_engine "[Some ''a'', Some defaultCode]" mount]
    idle h1 h2 h3 h4 h5 h6 h7
  show ?thesis unfolding c1 by simp
qed

text \<open>The claim as first stated, for updates of any text, fails when an update reports the
  text the buffer already holds: the effect does not run, the timeout armed by the update
  before stays, fires 1000 ms after that one, and the next update leads to a second
  compile. Here the updates come 900 ms apart, each in a task of its own.\<close>

theorem C2_same_text_counterexample:
  "rapid 100 [(1000, [Some ''a'']), (1900, [Some ''b''])]
   \<and> transform_calls (trace (advance accepting_engine 5000
        (run_tasks accepting_engine
          [(100, [Some ''a'']), (1000, [Some ''a'']), (1900, [Some ''b''])] mount))) =
      [(''a'', babel_options), (''b'', babel_options)]"
  by (simp add: advance_def timer_due_def fire_def editor_task_eq batch_text_def
      mount_simps defaultCode_def runCode_calls runCode_keeps Let_def)

end
